theory Spec2Isabelle
  imports Complex_Main "HOL-Library.Sublist"
begin

section \<open>JavaScript strings and files\<close>

text \<open>
  Strings are byte lists (UTF-8), so the ASCII characters searched for below occur in a
  string exactly where they are written. \<open>toLowerCase\<close> maps the letters A to Z. The
  only other characters whose lower-case form has an ASCII letter in it are the Kelvin
  sign (k) and the dotted capital I (i, then a combining dot), and neither can take part
  in a match of the keywords, the mime prefix or the extensions searched below: none of
  them has a k, and in each of them a letter follows every i.
\<close>

definition toLowerCaseChar :: "char \<Rightarrow> char" where
  "toLowerCaseChar c =
     (case map_of (zip ''ABCDEFGHIJKLMNOPQRSTUVWXYZ'' ''abcdefghijklmnopqrstuvwxyz'') c of
        Some l \<Rightarrow> l
      | None \<Rightarrow> c)"

definition toLowerCase :: "string \<Rightarrow> string" where
  "toLowerCase s = map toLowerCaseChar s"

definition startsWith :: "string \<Rightarrow> string \<Rightarrow> bool" where
  "startsWith s p = prefix p s"

definition endsWith :: "string \<Rightarrow> string \<Rightarrow> bool" where
  "endsWith s p = suffix p s"

text \<open>\<open>s.includes(p)\<close>: \<open>p\<close> occurs in \<open>s\<close> as a contiguous substring.\<close>

fun str_includes :: "string \<Rightarrow> string \<Rightarrow> bool" where
  "str_includes [] p = (p = [])"
| "str_includes (c # cs) p = (prefix p (c # cs) \<or> str_includes cs p)"

text \<open>\<open>raw.split(/[/\\]/)\<close>: the separators are the slash and the backslash.\<close>

definition isSeparator :: "char \<Rightarrow> bool" where
  "isSeparator c = (c = CHR ''/'' \<or> c = CHR 0x5C)"

fun splitPath :: "string \<Rightarrow> string list" where
  "splitPath [] = [[]]"
| "splitPath (c # cs) =
     (if isSeparator c then [] # splitPath cs
      else (case splitPath cs of
              [] \<Rightarrow> [[c]]
            | w # ws \<Rightarrow> (c # w) # ws))"

text \<open>
  \<open>formatPathLabel\<close>: \<open>parts[parts.length - 1] || raw\<close>; the empty string is falsy,
  so an empty last part gives the whole of \<open>raw\<close> back.
\<close>

definition formatPathLabel :: "string \<Rightarrow> string" where
  "formatPathLabel raw =
     (let parts = splitPath raw; l = last parts
      in if l = [] then raw else l)"

record File =
  name :: string
  type :: string
  webkitRelativePath :: string

text \<open>
  The path the benchmark view reads off a file: its \<open>webkitRelativePath\<close> when that is
  a non-empty string, else its \<open>name\<close>.
\<close>

definition rawPath :: "File \<Rightarrow> string" where
  "rawPath f = (if length (webkitRelativePath f) > 0 then webkitRelativePath f else name f)"

section \<open>Benchmark view: data\<close>

datatype Stage = Idle | Uploading | Extracting | Optimizing | Done

datatype DatasetKey = Swedish | Flavia | Philippine

record Dataset =
  key :: DatasetKey
  label :: string
  subtitle :: string
  samples :: nat
  classes :: nat
  mockAccuracy :: rat
  mockSelectedFeatures :: nat

definition DATASETS :: "Dataset list" where
  "DATASETS =
     [\<lparr>key = Swedish, label = ''Swedish Leaf'', subtitle = ''Automatic Swedish leaf dataset'',
        samples = 1125, classes = 15, mockAccuracy = 968 / 10, mockSelectedFeatures = 45\<rparr>,
      \<lparr>key = Flavia, label = ''Flavia'', subtitle = ''Flavia leaf dataset'',
        samples = 1907, classes = 32, mockAccuracy = 951 / 10, mockSelectedFeatures = 52\<rparr>,
      \<lparr>key = Philippine, label = ''Philippine Medicinal'',
        subtitle = ''Local medicinal plant leaves'',
        samples = 1500, classes = 25, mockAccuracy = 943 / 10, mockSelectedFeatures = 40\<rparr>]"

text \<open>A \<open>Record<DatasetKey, T>\<close>: one slot for each of the three keys.\<close>

record 'a PerDataset =
  swedish :: 'a
  flavia :: 'a
  philippine :: 'a

fun slot :: "'a PerDataset \<Rightarrow> DatasetKey \<Rightarrow> 'a" where
  "slot r Swedish = swedish r"
| "slot r Flavia = flavia r"
| "slot r Philippine = philippine r"

fun setSlot :: "DatasetKey \<Rightarrow> 'a \<Rightarrow> 'a PerDataset \<Rightarrow> 'a PerDataset" where
  "setSlot Swedish v r = r\<lparr>swedish := v\<rparr>"
| "setSlot Flavia v r = r\<lparr>flavia := v\<rparr>"
| "setSlot Philippine v r = r\<lparr>philippine := v\<rparr>"

record RunSummary =
  rid :: nat
  datasetLabel :: string
  sampleName :: "string option"
  species :: "string option"
  runConfidence :: "rat option"
  before :: "nat option"
  after :: "nat option"

text \<open>
  The three nested \<open>setTimeout\<close> closures of \<open>runMockPipeline\<close>, named after the stage
  each one writes.
\<close>

datatype TimerCallback = ToExtracting | ToOptimizing | ToDone

text \<open>
  The refs of the component, and the browser's side of it: a millisecond clock, the
  pending timeouts (due time and callback, in the order they were set) and the pending
  animation-frame callbacks (each \<open>step\<close> closure holds its \<open>start\<close>).
\<close>

record Bench =
  isDatasetDragging :: bool
  selectedDatasetKey :: DatasetKey
  selectedFileName :: "string option"
  datasetFileNames :: "string option PerDataset"
  datasetSampleNames :: "string list PerDataset"
  stage :: Stage
  predictedSpecies :: "string option"
  confidence :: "rat option"
  featureBefore :: "nat option"
  featureAfter :: "nat option"
  runCounter :: nat
  previousRuns :: "RunSummary list"
  compareBaseline :: bool
  optimizationProgress :: rat
  clock :: nat
  timers :: "(nat \<times> TimerCallback) list"
  frames :: "nat list"

definition initialBench :: Bench where
  "initialBench =
     \<lparr>isDatasetDragging = False, selectedDatasetKey = Swedish, selectedFileName = None,
      datasetFileNames = \<lparr>swedish = None, flavia = None, philippine = None\<rparr>,
      datasetSampleNames = \<lparr>swedish = [], flavia = [], philippine = []\<rparr>,
      stage = Idle, predictedSpecies = None, confidence = None,
      featureBefore = None, featureAfter = None, runCounter = 0, previousRuns = [],
      compareBaseline = False, optimizationProgress = 0,
      clock = 0, timers = [], frames = []\<rparr>"

text \<open>\<open>DATASETS.find((d) => d.key === selectedDatasetKey.value) ?? DATASETS[0]\<close>\<close>

definition selectedDataset :: "Bench \<Rightarrow> Dataset" where
  "selectedDataset s =
     (case find (\<lambda>d. key d = selectedDatasetKey s) DATASETS of
        Some d \<Rightarrow> d
      | None \<Rightarrow> hd DATASETS)"

section \<open>Benchmark view: folder attachment\<close>

definition inferDatasetKeyFromPath :: "string \<Rightarrow> DatasetKey option" where
  "inferDatasetKeyFromPath raw =
     (let lower = toLowerCase raw
      in if str_includes lower ''swedish'' then Some Swedish
         else if str_includes lower ''flavia'' then Some Flavia
         else if str_includes lower ''philippine'' \<or> str_includes lower ''medicinal''
           then Some Philippine
         else None)"

definition resetResults :: "Bench \<Rightarrow> Bench" where
  "resetResults s =
     s\<lparr>predictedSpecies := None, confidence := None, featureBefore := None,
       featureAfter := None, optimizationProgress := 0\<rparr>"

text \<open>The filter of \<open>handleDatasetFiles\<close> that prefers the image files of the folder.\<close>

definition isImageFile :: "File \<Rightarrow> bool" where
  "isImageFile f =
     (let mime = toLowerCase (type f);
          nm = toLowerCase (name f);
          isMimeImage = startsWith mime ''image/'';
          isKnownExt =
            (endsWith nm ''.jpg'' \<or> endsWith nm ''.jpeg'' \<or> endsWith nm ''.png'' \<or>
             endsWith nm ''.tif'' \<or> endsWith nm ''.tiff'')
      in isMimeImage \<or> isKnownExt)"

definition handleDatasetFiles :: "File list option \<Rightarrow> Bench \<Rightarrow> Bench" where
  "handleDatasetFiles files s =
     (case files of
        None \<Rightarrow> s
      | Some [] \<Rightarrow> s
      | Some (first # rest) \<Rightarrow>
          (let fileArray = first # rest;
               firstRawPath = rawPath first;
               inferredKey = inferDatasetKeyFromPath firstRawPath;
               currentKey = (case inferredKey of Some k \<Rightarrow> k | None \<Rightarrow> selectedDatasetKey s);
               s1 = (case inferredKey of
                       Some k \<Rightarrow> s\<lparr>selectedDatasetKey := k\<rparr>
                     | None \<Rightarrow> s);
               imageFiles = filter isImageFile fileArray;
               chosen = (if length imageFiles > 0 then imageFiles else fileArray);
               sampleFiles = take 3 chosen;
               s2 = s1\<lparr>datasetSampleNames :=
                        setSlot currentKey (map (\<lambda>f. formatPathLabel (rawPath f)) sampleFiles)
                          (datasetSampleNames s1)\<rparr>
           in (case sampleFiles of
                 [] \<Rightarrow> s2
               | f # _ \<Rightarrow>
                   s2\<lparr>datasetFileNames :=
                        setSlot currentKey (Some (formatPathLabel (rawPath f)))
                          (datasetFileNames s2)\<rparr>)))"

definition onDatasetDrop :: "File list option \<Rightarrow> Bench \<Rightarrow> Bench" where
  "onDatasetDrop files s = handleDatasetFiles files (s\<lparr>isDatasetDragging := False\<rparr>)"

definition onDatasetChange :: "File list option \<Rightarrow> Bench \<Rightarrow> Bench" where
  "onDatasetChange files s = handleDatasetFiles files s"

section \<open>Benchmark view: the simulated pipeline\<close>

definition setTimeout :: "TimerCallback \<Rightarrow> nat \<Rightarrow> Bench \<Rightarrow> Bench" where
  "setTimeout cb delay s = s\<lparr>timers := timers s @ [(clock s + delay, cb)]\<rparr>"

definition requestAnimationFrame :: "nat \<Rightarrow> Bench \<Rightarrow> Bench" where
  "requestAnimationFrame start s = s\<lparr>frames := frames s @ [start]\<rparr>"

definition runMockPipeline :: "Bench \<Rightarrow> Bench" where
  "runMockPipeline s = setTimeout ToExtracting 500 (s\<lparr>stage := Uploading\<rparr>)"

definition runSampleFromDataset :: "string \<Rightarrow> Bench \<Rightarrow> Bench" where
  "runSampleFromDataset nm s =
     runMockPipeline (resetResults (s\<lparr>selectedFileName := Some (formatPathLabel nm)\<rparr>))"

text \<open>
  The animation callback \<open>step(now)\<close> of a run that entered the optimizing stage at
  \<open>start\<close>; \<open>now\<close> is the clock. The quotient \<open>elapsed / duration\<close> is taken in the
  rationals.
\<close>

definition step :: "nat \<Rightarrow> Bench \<Rightarrow> Bench" where
  "step start s =
     (let duration = 5000;
          elapsed = clock s - start;
          s1 = s\<lparr>optimizationProgress := min 1 (of_nat elapsed / of_nat duration)\<rparr>
      in if elapsed < duration \<and> stage s1 = Optimizing
         then requestAnimationFrame start s1
         else s1)"

text \<open>The body of the innermost timeout: the mock results and the run history.\<close>

definition finishRun :: "Bench \<Rightarrow> Bench" where
  "finishRun s =
     (let s1 = s\<lparr>stage := Done, featureBefore := Some 2048\<rparr>;
          ds = selectedDataset s1;
          s2 = s1\<lparr>predictedSpecies :=
                    Some (if key ds = Swedish then ''Quercus robur (English Oak)''
                          else if key ds = Flavia then ''Acer palmatum (Japanese Maple)''
                          else ''Vitex negundo (Lagundi)'')\<rparr>;
          s3 = s2\<lparr>confidence := Some (mockAccuracy ds),
                  featureAfter := Some (mockSelectedFeatures ds)\<rparr>;
          s4 = s3\<lparr>runCounter := runCounter s3 + 1\<rparr>;
          summary = \<lparr>rid = runCounter s4, datasetLabel = label ds,
                     sampleName = selectedFileName s4, species = predictedSpecies s4,
                     runConfidence = confidence s4, before = featureBefore s4,
                     after = featureAfter s4\<rparr>
      in s4\<lparr>previousRuns := take 4 (summary # previousRuns s4)\<rparr>)"

fun runCallback :: "TimerCallback \<Rightarrow> Bench \<Rightarrow> Bench" where
  "runCallback ToExtracting s = setTimeout ToOptimizing 1100 (s\<lparr>stage := Extracting\<rparr>)"
| "runCallback ToOptimizing s =
     (let s1 = s\<lparr>stage := Optimizing, optimizationProgress := 0\<rparr>;
          start = clock s1
      in setTimeout ToDone 900 (requestAnimationFrame start s1))"
| "runCallback ToDone s = finishRun s"

section \<open>Benchmark view: events\<close>

text \<open>
  What can happen to the mounted view: the handlers bound in the template, time passing,
  the browser running the pending timeout that is due first (timeouts of equal due time
  in the order they were set; a timeout never runs before it is due, so the clock moves
  up to the due time if it is not there yet), and the browser running the animation-frame
  callbacks registered so far.
\<close>

datatype BenchEvent =
    SelectDataset DatasetKey
  | DragOver
  | DragLeave
  | DatasetDrop "File list option"
  | DatasetChange "File list option"
  | RunSample string
  | ToggleCompare
  | Wait nat
  | Fire
  | Frame

fun earliest :: "(nat \<times> 'a) list \<Rightarrow> (nat \<times> 'a) option" where
  "earliest [] = None"
| "earliest (t # ts) =
     (case earliest ts of
        None \<Rightarrow> Some t
      | Some u \<Rightarrow> if fst u < fst t then Some u else Some t)"

definition fire :: "Bench \<Rightarrow> Bench" where
  "fire s =
     (case earliest (timers s) of
        None \<Rightarrow> s
      | Some (due, cb) \<Rightarrow>
          runCallback cb
            (s\<lparr>clock := max (clock s) due, timers := remove1 (due, cb) (timers s)\<rparr>))"

definition animationFrame :: "Bench \<Rightarrow> Bench" where
  "animationFrame s = fold step (frames s) (s\<lparr>frames := []\<rparr>)"

fun benchEvent :: "BenchEvent \<Rightarrow> Bench \<Rightarrow> Bench" where
  "benchEvent (SelectDataset k) s = s\<lparr>selectedDatasetKey := k\<rparr>"
| "benchEvent DragOver s = s\<lparr>isDatasetDragging := True\<rparr>"
| "benchEvent DragLeave s = s\<lparr>isDatasetDragging := False\<rparr>"
| "benchEvent (DatasetDrop files) s = onDatasetDrop files s"
| "benchEvent (DatasetChange files) s = onDatasetChange files s"
| "benchEvent (RunSample nm) s = runSampleFromDataset nm s"
| "benchEvent ToggleCompare s = s\<lparr>compareBaseline := \<not> compareBaseline s\<rparr>"
| "benchEvent (Wait d) s = s\<lparr>clock := clock s + d\<rparr>"
| "benchEvent Fire s = fire s"
| "benchEvent Frame s = animationFrame s"

definition exec :: "BenchEvent list \<Rightarrow> Bench \<Rightarrow> Bench" where
  "exec es s = fold benchEvent es s"

text \<open>The stage shown before the first event and after each event of a sequence.\<close>

fun stagesFrom :: "Bench \<Rightarrow> BenchEvent list \<Rightarrow> Stage list" where
  "stagesFrom s [] = [stage s]"
| "stagesFrom s (e # es) = stage s # stagesFrom (benchEvent e s) es"

fun isRunSample :: "BenchEvent \<Rightarrow> bool" where
  "isRunSample (RunSample nm) = True"
| "isRunSample e = False"

fun isFire :: "BenchEvent \<Rightarrow> bool" where
  "isFire Fire = True"
| "isFire e = False"

section \<open>Benchmark view: what the results card shows\<close>

text \<open>
  \<open>x.toFixed(1)\<close> on the rational value of the number: the nearest multiple of one
  tenth, the larger one on a tie, with the sign in front.
\<close>

definition digitChar :: "nat \<Rightarrow> char" where
  "digitChar d = ''0123456789'' ! d"

fun showNat :: "nat \<Rightarrow> string" where
  "showNat n = (if n < 10 then [digitChar n] else showNat (n div 10) @ [digitChar (n mod 10)])"

declare showNat.simps [simp del]

definition toFixed1 :: "rat \<Rightarrow> string" where
  "toFixed1 x =
     (let n = nat \<lfloor>\<bar>x\<bar> * 10 + 1 / 2\<rfloor>;
          body = showNat (n div 10) @ ''.'' @ showNat (n mod 10)
      in if x < 0 then ''-'' @ body else body)"

text \<open>
  The results card of the template, as far as it shows results. It is the \<open>v-else\<close> of
  \<open>stage !== 'done'\<close>, so there is none before the stage is \<open>done\<close>. The text under
  "Model Accuracy" and the number of validation images are literals of the template; the
  closing sentence of the card reads the selected profile.
\<close>

record ResultsCard =
  shownSpecies :: "string option"
  shownSample :: "string option"
  modelAccuracy :: string
  validatedOn :: string
  shownFeatureBefore :: "nat option"
  shownFeatureAfter :: "nat option"
  baselineComparisonShown :: bool
  closingAccuracy :: string
  closingLabel :: string
  closingFeatures :: nat

definition resultsCard :: "Bench \<Rightarrow> ResultsCard option" where
  "resultsCard s =
     (if stage s \<noteq> Done then None
      else Some
        \<lparr>shownSpecies = predictedSpecies s,
         shownSample =
           (case selectedFileName s of
              None \<Rightarrow> None
            | Some nm \<Rightarrow> if nm = [] then None else Some nm),
         modelAccuracy = ''95.1%'',
         validatedOn = ''1,907'',
         shownFeatureBefore = featureBefore s,
         shownFeatureAfter = featureAfter s,
         baselineComparisonShown = compareBaseline s,
         closingAccuracy = toFixed1 (mockAccuracy (selectedDataset s)) @ ''%'',
         closingLabel = label (selectedDataset s),
         closingFeatures = mockSelectedFeatures (selectedDataset s)\<rparr>)"

text \<open>The list of recent runs is shown once it has more than one entry.\<close>

definition recentRuns :: "Bench \<Rightarrow> RunSummary list" where
  "recentRuns s = (if length (previousRuns s) > 1 then previousRuns s else [])"

section \<open>Live identification view: data\<close>

datatype LiveStage = LiveIdle | Processing | LiveDone

text \<open>A media stream is the list of its tracks; a track is known by its number.\<close>

type_synonym MediaStream = "nat list"

text \<open>The error a rejected \<open>getUserMedia\<close> call reports: its \<open>name\<close> and \<open>message\<close>.\<close>

record CameraError =
  errorName :: string
  errorMessage :: string

record VideoElement =
  srcObject :: "MediaStream option"
  muted :: bool
  playsinline :: bool

text \<open>The three constraint sets \<open>startCamera\<close> asks for, in the order it tries them.\<close>

datatype Attempt = IdealResolution | FacingModeOnly | AnyCamera

text \<open>
  A call of \<open>startCamera\<close> is suspended at one of its \<open>await\<close>s or has returned. The
  \<open>n\<close>-th call that reached \<open>getUserMedia\<close> is the \<open>n\<close>-th entry of \<open>cameraTasks\<close>.
\<close>

datatype CameraTask =
    AwaitGetUserMedia Attempt
  | AwaitLoadedMetadata
  | AwaitPlay
  | Settled

text \<open>
  The refs of the component (\<open>stage\<close>, \<open>selectedFileName\<close>, \<open>predictedSpecies\<close> and
  \<open>confidence\<close> carry the prefix \<open>live\<close> here), and the browser's side: whether
  \<open>navigator.mediaDevices.getUserMedia\<close> exists, the alerts shown, the number of pending
  classification timeouts and \<open>toBlob\<close> callbacks, the suspended \<open>startCamera\<close> calls,
  and the tracks the browser has started for this page that have not been stopped.
\<close>

record Live =
  liveStage :: LiveStage
  liveSelectedFileName :: "string option"
  livePredictedSpecies :: "string option"
  liveConfidence :: "rat option"
  isCameraOpen :: bool
  cameraError :: "string option"
  videoRef :: "VideoElement option"
  cameraStream :: "MediaStream option"
  getUserMediaSupported :: bool
  alerts :: "string list"
  classificationTimers :: nat
  blobCallbacks :: nat
  cameraTasks :: "CameraTask list"
  activeTracks :: "nat list"

definition initialLive :: Live where
  "initialLive =
     \<lparr>liveStage = LiveIdle, liveSelectedFileName = None, livePredictedSpecies = None,
      liveConfidence = None, isCameraOpen = False, cameraError = None, videoRef = None,
      cameraStream = None, getUserMediaSupported = True, alerts = [],
      classificationTimers = 0, blobCallbacks = 0, cameraTasks = [], activeTracks = []\<rparr>"

section \<open>Live identification view: classification\<close>

definition liveResetResults :: "Live \<Rightarrow> Live" where
  "liveResetResults s = s\<lparr>livePredictedSpecies := None, liveConfidence := None\<rparr>"

definition runClassification :: "Live \<Rightarrow> Live" where
  "runClassification s =
     (let s1 = liveResetResults s;
          s2 = s1\<lparr>liveStage := Processing\<rparr>
      in s2\<lparr>classificationTimers := classificationTimers s2 + 1\<rparr>)"

text \<open>The callback of the 1500 ms timeout set by \<open>runClassification\<close>.\<close>

definition classificationDone :: "Live \<Rightarrow> Live" where
  "classificationDone s =
     s\<lparr>liveStage := LiveDone,
       livePredictedSpecies := Some ''Banaba (Lagerstroemia speciosa)'',
       liveConfidence := Some (992 / 10)\<rparr>"

definition handleFiles :: "File list option \<Rightarrow> Live \<Rightarrow> Live" where
  "handleFiles files s =
     (case files of
        None \<Rightarrow> s
      | Some [] \<Rightarrow> s
      | Some (file # rest) \<Rightarrow>
          (let mimeType = type file
           in if \<not> startsWith mimeType ''image/''
              then s\<lparr>alerts := alerts s @ [''Please upload a plant leaf image (JPG/PNG/TIFF).'']\<rparr>
              else runClassification (s\<lparr>liveSelectedFileName := Some (name file)\<rparr>)))"

section \<open>Live identification view: camera\<close>

definition cameraErrorMessage :: "CameraError \<Rightarrow> string" where
  "cameraErrorMessage err =
     (if errorName err = ''NotAllowedError'' \<or> errorName err = ''PermissionDeniedError''
      then ''Camera permission denied. Please allow camera access in your browser settings.''
      else if errorName err = ''NotFoundError'' \<or> errorName err = ''DevicesNotFoundError''
      then ''No camera found on this device.''
      else if errorName err = ''NotReadableError'' \<or> errorName err = ''TrackStartError''
      then ''Camera is already in use by another application.''
      else ''Unable to access camera: '' @
           (if errorMessage err = [] then ''Unknown error'' else errorMessage err) @ ''.'')"

text \<open>\<open>startCamera\<close> up to its first \<open>await\<close>.\<close>

definition startCamera :: "Live \<Rightarrow> Live" where
  "startCamera s =
     (let s1 = s\<lparr>cameraError := None\<rparr>
      in if \<not> getUserMediaSupported s1
         then s1\<lparr>cameraError := Some ''Camera not supported in this browser.''\<rparr>
         else s1\<lparr>cameraTasks := cameraTasks s1 @ [AwaitGetUserMedia IdealResolution]\<rparr>)"

text \<open>
  The browser settles the \<open>getUserMedia\<close> call of task \<open>i\<close>. On success it has started
  the tracks of the stream, and \<open>startCamera\<close> goes on after its \<open>await\<close>: it stores the
  stream, and hands it to the video element if there is one. On failure the first and the
  second attempt fall through to the next set of constraints; the failure of the third is
  caught by the outer \<open>catch\<close>.
\<close>

fun awaitsGetUserMedia :: "CameraTask \<Rightarrow> bool" where
  "awaitsGetUserMedia (AwaitGetUserMedia a) = True"
| "awaitsGetUserMedia t = False"

definition getUserMediaResolved :: "nat \<Rightarrow> MediaStream \<Rightarrow> Live \<Rightarrow> Live" where
  "getUserMediaResolved i stream s =
     (if i < length (cameraTasks s) \<and> awaitsGetUserMedia (cameraTasks s ! i)
      then
        (let s1 = s\<lparr>activeTracks := activeTracks s @ stream\<rparr>;
             s2 = s1\<lparr>cameraStream := Some stream\<rparr>
         in case videoRef s2 of
              None \<Rightarrow> s2\<lparr>cameraTasks := (cameraTasks s2)[i := Settled]\<rparr>
            | Some video \<Rightarrow>
                s2\<lparr>videoRef := Some (video\<lparr>srcObject := Some stream, muted := True,
                                            playsinline := True\<rparr>),
                   cameraTasks := (cameraTasks s2)[i := AwaitLoadedMetadata]\<rparr>)
      else s)"

definition getUserMediaRejected :: "nat \<Rightarrow> CameraError \<Rightarrow> Live \<Rightarrow> Live" where
  "getUserMediaRejected i err s =
     (if i < length (cameraTasks s)
      then
        (case cameraTasks s ! i of
           AwaitGetUserMedia IdealResolution \<Rightarrow>
             s\<lparr>cameraTasks := (cameraTasks s)[i := AwaitGetUserMedia FacingModeOnly]\<rparr>
         | AwaitGetUserMedia FacingModeOnly \<Rightarrow>
             s\<lparr>cameraTasks := (cameraTasks s)[i := AwaitGetUserMedia AnyCamera]\<rparr>
         | AwaitGetUserMedia AnyCamera \<Rightarrow>
             s\<lparr>cameraError := Some (cameraErrorMessage err),
               cameraTasks := (cameraTasks s)[i := Settled]\<rparr>
         | _ \<Rightarrow> s)
      else s)"

text \<open>
  The video is ready (at once, or at its \<open>loadedmetadata\<close> event), and \<open>play()\<close>
  settles; a rejected \<open>play()\<close> is only logged.
\<close>

definition loadedMetadata :: "nat \<Rightarrow> Live \<Rightarrow> Live" where
  "loadedMetadata i s =
     (if i < length (cameraTasks s) \<and> cameraTasks s ! i = AwaitLoadedMetadata
      then s\<lparr>cameraTasks := (cameraTasks s)[i := AwaitPlay]\<rparr>
      else s)"

definition playSettled :: "nat \<Rightarrow> Live \<Rightarrow> Live" where
  "playSettled i s =
     (if i < length (cameraTasks s) \<and> cameraTasks s ! i = AwaitPlay
      then s\<lparr>cameraTasks := (cameraTasks s)[i := Settled]\<rparr>
      else s)"

definition stopCamera :: "Live \<Rightarrow> Live" where
  "stopCamera s =
     (let s1 = (case cameraStream s of
                  None \<Rightarrow> s
                | Some stream \<Rightarrow>
                    s\<lparr>activeTracks := filter (\<lambda>t. \<not> List.member stream t) (activeTracks s),
                      cameraStream := None\<rparr>)
      in case videoRef s1 of
           None \<Rightarrow> s1
         | Some video \<Rightarrow> s1\<lparr>videoRef := Some (video\<lparr>srcObject := None\<rparr>)\<rparr>)"

text \<open>
  The video element is inside the \<open>v-if\<close> of the overlay: it is there once \<open>nextTick\<close>
  has passed with \<open>isCameraOpen\<close> set, and gone after the handler that clears
  \<open>isCameraOpen\<close>, before any other task runs.
\<close>

definition openCamera :: "Live \<Rightarrow> Live" where
  "openCamera s =
     (let s1 = s\<lparr>isCameraOpen := True\<rparr>;
          s2 = (case videoRef s1 of
                  None \<Rightarrow> s1\<lparr>videoRef := Some \<lparr>srcObject = None, muted = True,
                                                playsinline = True\<rparr>\<rparr>
                | Some video \<Rightarrow> s1)
      in startCamera s2)"

definition closeCamera :: "Live \<Rightarrow> Live" where
  "closeCamera s = (stopCamera s)\<lparr>isCameraOpen := False, videoRef := None\<rparr>"

text \<open>
  \<open>captureFromCamera\<close> with the size of the current frame and whether the canvas gave a
  2d context; it leaves a \<open>toBlob\<close> callback pending. The callback gets a blob or null.
\<close>

definition captureFromCamera :: "nat \<Rightarrow> nat \<Rightarrow> bool \<Rightarrow> Live \<Rightarrow> Live" where
  "captureFromCamera videoWidth videoHeight hasContext s =
     (if videoRef s = None \<or> videoWidth = 0 \<or> videoHeight = 0 then s
      else if \<not> hasContext then s
      else s\<lparr>blobCallbacks := blobCallbacks s + 1\<rparr>)"

definition blobReady :: "bool \<Rightarrow> Live \<Rightarrow> Live" where
  "blobReady hasBlob s =
     (if blobCallbacks s = 0 then s
      else
        (let s1 = s\<lparr>blobCallbacks := blobCallbacks s - 1\<rparr>
         in if \<not> hasBlob then s1
            else closeCamera
                   (handleFiles
                      (Some [\<lparr>name = ''captured-leaf.jpg'', type = ''image/jpeg'',
                              webkitRelativePath = []\<rparr>])
                      s1)))"

text \<open>\<open>onBeforeUnmount\<close>, after which the elements of the view are gone.\<close>

definition unmount :: "Live \<Rightarrow> Live" where
  "unmount s = (stopCamera s)\<lparr>videoRef := None\<rparr>"

section \<open>Live identification view: events\<close>

datatype LiveEvent =
    FileChange "File list option"
  | OpenCamera
  | CloseCamera
  | CaptureFromCamera nat nat bool
  | BlobReady bool
  | ClassificationTimer
  | GetUserMediaResolved nat MediaStream
  | GetUserMediaRejected nat CameraError
  | LoadedMetadata nat
  | PlaySettled nat
  | Unmount

fun liveEvent :: "LiveEvent \<Rightarrow> Live \<Rightarrow> Live" where
  "liveEvent (FileChange files) s = handleFiles files s"
| "liveEvent OpenCamera s = openCamera s"
| "liveEvent CloseCamera s = closeCamera s"
| "liveEvent (CaptureFromCamera w h c) s = captureFromCamera w h c s"
| "liveEvent (BlobReady b) s = blobReady b s"
| "liveEvent ClassificationTimer s =
     (if classificationTimers s = 0 then s
      else classificationDone (s\<lparr>classificationTimers := classificationTimers s - 1\<rparr>))"
| "liveEvent (GetUserMediaResolved i stream) s = getUserMediaResolved i stream s"
| "liveEvent (GetUserMediaRejected i err) s = getUserMediaRejected i err s"
| "liveEvent (LoadedMetadata i) s = loadedMetadata i s"
| "liveEvent (PlaySettled i) s = playSettled i s"
| "liveEvent Unmount s = unmount s"

definition execLive :: "LiveEvent list \<Rightarrow> Live \<Rightarrow> Live" where
  "execLive es s = fold liveEvent es s"



section \<open>Invariants and sample inputs\<close>

text \<open>
  The identifiers in the history are the numbers of the last runs, the newest first:
  with \<open>n\<close> runs completed, the first four of \<open>n, n - 1, \<dots>, 1\<close>.
\<close>

definition historyInv :: "Bench \<Rightarrow> bool" where
  "historyInv s = (map rid (previousRuns s) = take 4 (rev [1..<Suc (runCounter s)]))"

text \<open>Whenever the live view shows \<open>done\<close>, it holds the fixed prediction.\<close>

definition doneInv :: "Live \<Rightarrow> bool" where
  "doneInv s =
     (liveStage s = LiveDone \<longrightarrow>
        livePredictedSpecies s = Some ''Banaba (Lagerstroemia speciosa)'' \<and>
        liveConfidence s = Some (992 / 10))"

definition leafPng :: File where
  "leafPng = \<lparr>name = ''leaf.png'', type = ''image/png'', webkitRelativePath = []\<rparr>"

definition notesTxt :: File where
  "notesTxt = \<lparr>name = ''notes.txt'', type = ''text/plain'', webkitRelativePath = []\<rparr>"




text \<open>
  A view with one run in flight and nothing else pending: at stage number \<open>r\<close> of the
  sequence the only pending timeout is the one that writes the next stage, and at the
  last stage none is pending.
\<close>

definition fullSequence :: "Stage list" where
  "fullSequence = [Uploading, Extracting, Optimizing, Done]"

definition runInv :: "nat \<Rightarrow> Bench \<Rightarrow> bool" where
  "runInv r s =
     (r \<le> 3 \<and> stage s = fullSequence ! r \<and>
      map snd (timers s) =
        (if r = 0 then [ToExtracting] else if r = 1 then [ToOptimizing]
         else if r = 2 then [ToDone] else []))"

definition sampleEvents :: "BenchEvent list" where
  "sampleEvents =
     [Fire, ToggleCompare, Fire, Frame, Wait 400, Frame, Fire, SelectDataset Flavia, Fire, Frame]"

text \<open>
  A folder \<open>leaves\<close> with the sub-folders \<open>batch1\<close> and \<open>flavia\<close>, a note beside
  them, and a file whose name ends with a backslash.
\<close>

definition batchImg :: File where
  "batchImg = \<lparr>name = ''img01.png'', type = ''image/png'',
                webkitRelativePath = ''leaves/batch1/img01.png''\<rparr>"

definition flaviaImg :: File where
  "flaviaImg = \<lparr>name = ''img02.JPG'', type = [],
                 webkitRelativePath = ''leaves/flavia/img02.JPG''\<rparr>"

definition folderNote :: File where
  "folderNote = \<lparr>name = ''zz_note.txt'', type = ''text/plain'',
                  webkitRelativePath = ''leaves/zz_note.txt''\<rparr>"

definition trailingBackslashFile :: File where
  "trailingBackslashFile = \<lparr>name = ''scan'' @ [CHR 0x5C], type = [], webkitRelativePath = []\<rparr>"

text \<open>The profile a folder's names go to: the inferred one, else the selected one.\<close>

definition targetKey :: "File \<Rightarrow> Bench \<Rightarrow> DatasetKey" where
  "targetKey first s =
     (case inferDatasetKeyFromPath (rawPath first) of
        Some k \<Rightarrow> k
      | None \<Rightarrow> selectedDatasetKey s)"

text \<open>
  One complete run from the initial state, and a second run up to its last timeout.
\<close>

definition oneRun :: "BenchEvent list" where
  "oneRun = [RunSample ''img01.png'', Fire, Fire, Fire]"

definition beforeSecondDone :: Bench where
  "beforeSecondDone =
     exec (oneRun @ [RunSample ''img02.JPG'', Fire, Fire]) initialBench"

text \<open>The species the last timeout publishes for a profile.\<close>

definition mockSpecies :: "Dataset \<Rightarrow> string" where
  "mockSpecies ds =
     (if key ds = Swedish then ''Quercus robur (English Oak)''
      else if key ds = Flavia then ''Acer palmatum (Japanese Maple)''
      else ''Vitex negundo (Lagundi)'')"

text \<open>
  A folder is attached, its sample is clicked, and two timeouts of that run have passed.
\<close>

definition firstRunOptimizing :: Bench where
  "firstRunOptimizing =
     exec [DatasetChange (Some [batchImg]), RunSample ''img01.png'', Fire, Fire] initialBench"

section \<open>Benchmark view: the run history\<close>

lemma exec_invariant:
  assumes "P s" and "\<And>e t. P t \<Longrightarrow> P (benchEvent e t)"
  shows "P (exec es s)"
  using assms(1) unfolding exec_def
  by (induction es arbitrary: s) (simp_all add: assms(2))

lemma finishRun_history:
  "previousRuns (finishRun s) =
     \<lparr>rid = Suc (runCounter s), datasetLabel = label (selectedDataset s),
      sampleName = selectedFileName s, species = predictedSpecies (finishRun s),
      runConfidence = Some (mockAccuracy (selectedDataset s)), before = Some 2048,
      after = Some (mockSelectedFeatures (selectedDataset s))\<rparr> # take 3 (previousRuns s)"
  "runCounter (finishRun s) = Suc (runCounter s)"
  by (simp_all add: finishRun_def Let_def selectedDataset_def)

lemma finishRun_results:
  "stage (finishRun s) = Done"
  "confidence (finishRun s) = Some (mockAccuracy (selectedDataset s))"
  "featureBefore (finishRun s) = Some 2048"
  "featureAfter (finishRun s) = Some (mockSelectedFeatures (selectedDataset s))"
  "selectedDataset (finishRun s) = selectedDataset s"
  by (simp_all add: finishRun_def Let_def selectedDataset_def)

lemma rev_upt_Suc: "rev [1..<Suc (Suc n)] = Suc n # rev [1..<Suc n]"
  by simp

lemma finishRun_historyInv: "historyInv s \<Longrightarrow> historyInv (finishRun s)"
proof -
  assume h: "historyInv s"
  have "map rid (previousRuns (finishRun s)) =
          Suc (runCounter s) # take 3 (map rid (previousRuns s))"
    by (simp add: finishRun_history take_map)
  also have "\<dots> = Suc (runCounter s) # take 3 (rev [1..<Suc (runCounter s)])"
    using h by (simp add: historyInv_def del: upt_Suc)
  also have "\<dots> = take 4 (rev [1..<Suc (Suc (runCounter s))])"
    by (simp only: rev_upt_Suc take_Cons_numeral) simp
  finally show ?thesis by (simp add: historyInv_def finishRun_history del: upt_Suc)
qed

lemma runCallback_historyInv: "historyInv s \<Longrightarrow> historyInv (runCallback cb s)"
proof (cases cb)
  case ToDone
  assume "historyInv s"
  then show ?thesis using ToDone by (simp add: finishRun_historyInv)
qed (simp_all add: historyInv_def setTimeout_def requestAnimationFrame_def Let_def
       del: upt_Suc)

lemma fire_historyInv: "historyInv s \<Longrightarrow> historyInv (fire s)"
proof -
  assume h: "historyInv s"
  show ?thesis
  proof (cases "earliest (timers s)")
    case None
    then show ?thesis using h by (simp add: fire_def)
  next
    case (Some t)
    obtain due cb where t: "t = (due, cb)" by (cases t)
    have "historyInv (s\<lparr>clock := max (clock s) due, timers := remove1 (due, cb) (timers s)\<rparr>)"
      using h by (simp add: historyInv_def del: upt_Suc)
    then show ?thesis using Some t by (simp add: fire_def runCallback_historyInv)
  qed
qed

lemma step_history [simp]:
  "previousRuns (step start s) = previousRuns s"
  "runCounter (step start s) = runCounter s"
  by (simp_all add: step_def requestAnimationFrame_def Let_def)

lemma fold_step_history [simp]:
  "previousRuns (fold step fs s) = previousRuns s"
  "runCounter (fold step fs s) = runCounter s"
  by (induction fs arbitrary: s) simp_all

lemma handleDatasetFiles_history [simp]:
  "previousRuns (handleDatasetFiles files s) = previousRuns s"
  "runCounter (handleDatasetFiles files s) = runCounter s"
  by (simp_all add: handleDatasetFiles_def Let_def split: option.splits list.splits)

lemma benchEvent_historyInv: "historyInv s \<Longrightarrow> historyInv (benchEvent e s)"
proof (cases e)
  case Fire
  assume "historyInv s"
  then show ?thesis using Fire by (simp add: fire_historyInv)
qed (simp_all add: historyInv_def onDatasetDrop_def onDatasetChange_def
       runSampleFromDataset_def runMockPipeline_def resetResults_def setTimeout_def
       animationFrame_def del: upt_Suc)

lemma fire_done:
  assumes "earliest (timers s) = Some (due, ToDone)"
  shows "fire s =
           finishRun (s\<lparr>clock := max (clock s) due,
                        timers := remove1 (due, ToDone) (timers s)\<rparr>)"
  using assms by (simp add: fire_def)

lemma finishRun_species:
  "predictedSpecies (finishRun s) = Some (mockSpecies (selectedDataset s))"
  by (simp add: finishRun_def mockSpecies_def Let_def selectedDataset_def)

lemma fire_done_records:
  assumes "earliest (timers s) = Some (due, ToDone)"
  shows "previousRuns (fire s) =
     \<lparr>rid = Suc (runCounter s), datasetLabel = label (selectedDataset s),
      sampleName = selectedFileName s, species = Some (mockSpecies (selectedDataset s)),
      runConfidence = Some (mockAccuracy (selectedDataset s)), before = Some 2048,
      after = Some (mockSelectedFeatures (selectedDataset s))\<rparr> # take 3 (previousRuns s)"
    and "runCounter (fire s) = Suc (runCounter s)"
    and "stage (fire s) = Done"
    and "predictedSpecies (fire s) = Some (mockSpecies (selectedDataset s))"
    and "confidence (fire s) = Some (mockAccuracy (selectedDataset s))"
    and "featureBefore (fire s) = Some 2048"
    and "featureAfter (fire s) = Some (mockSelectedFeatures (selectedDataset s))"
  unfolding fire_done[OF assms]
  by (simp_all add: finishRun_history finishRun_results finishRun_species selectedDataset_def)

lemma full_run_reaches_done:
  assumes "timers t = []"
  shows "earliest (timers (exec [RunSample nm, Fire, Fire] t)) = Some (clock t + 2500, ToDone)"
    and "runCounter (exec [RunSample nm, Fire, Fire] t) = runCounter t"
    and "previousRuns (exec [RunSample nm, Fire, Fire] t) = previousRuns t"
    and "selectedDataset (exec [RunSample nm, Fire, Fire] t) = selectedDataset t"
    and "selectedFileName (exec [RunSample nm, Fire, Fire] t) = Some (formatPathLabel nm)"
  using assms
  by (simp_all add: exec_def fire_def runSampleFromDataset_def runMockPipeline_def
        resetResults_def setTimeout_def requestAnimationFrame_def selectedDataset_def Let_def)

lemma exec_snoc: "exec (es @ [e]) s = benchEvent e (exec es s)"
  by (simp add: exec_def)

text \<open>
  Claim C3. When the last timeout of a run is the one due first and it runs, the run is
  complete: the stage is done, the run counter is one more, and the history is the Run
  Summary of this run (its number, the label of the selected profile, the sample name,
  and the species, confidence and feature counts just published) followed by the three
  newest entries of the old history, so it has at most 4 entries and its first entry is
  the summary of the run just completed. A whole run from a view with no timeout pending
  (the sample click and its three timeouts) ends so. After every sequence of events from
  the initial state, whatever runs it starts and completes, the history has at most 4
  entries and lists the last completed runs with the most recent first.
\<close>

theorem run_history_bounded_most_recent_first:
  assumes "earliest (timers s) = Some (due, ToDone)" and "timers t = []"
  shows "previousRuns (benchEvent Fire s) =
     \<lparr>rid = Suc (runCounter s), datasetLabel = label (selectedDataset s),
      sampleName = selectedFileName s, species = Some (mockSpecies (selectedDataset s)),
      runConfidence = Some (mockAccuracy (selectedDataset s)), before = Some 2048,
      after = Some (mockSelectedFeatures (selectedDataset s))\<rparr> # take 3 (previousRuns s)
   \<and> hd (previousRuns (benchEvent Fire s)) =
     \<lparr>rid = runCounter (benchEvent Fire s), datasetLabel = label (selectedDataset s),
      sampleName = selectedFileName s, species = predictedSpecies (benchEvent Fire s),
      runConfidence = confidence (benchEvent Fire s), before = featureBefore (benchEvent Fire s),
      after = featureAfter (benchEvent Fire s)\<rparr>
   \<and> stage (benchEvent Fire s) = Done
   \<and> runCounter (benchEvent Fire s) = Suc (runCounter s)
   \<and> length (previousRuns (benchEvent Fire s)) \<le> 4
   \<and> previousRuns (exec [RunSample nm, Fire, Fire, Fire] t) =
     \<lparr>rid = Suc (runCounter t), datasetLabel = label (selectedDataset t),
      sampleName = Some (formatPathLabel nm), species = Some (mockSpecies (selectedDataset t)),
      runConfidence = Some (mockAccuracy (selectedDataset t)), before = Some 2048,
      after = Some (mockSelectedFeatures (selectedDataset t))\<rparr> # take 3 (previousRuns t)
   \<and> previousRuns (finishRun s) =
     \<lparr>rid = runCounter (finishRun s), datasetLabel = label (selectedDataset s),
      sampleName = selectedFileName s, species = predictedSpecies (finishRun s),
      runConfidence = confidence (finishRun s), before = featureBefore (finishRun s),
      after = featureAfter (finishRun s)\<rparr> # take 3 (previousRuns s)
   \<and> length (previousRuns (finishRun s)) \<le> 4
   \<and> length (previousRuns (exec es initialBench)) \<le> 4
   \<and> map rid (previousRuns (exec es initialBench)) =
       take 4 (rev [1..<Suc (runCounter (exec es initialBench))])"
proof -
  note R = fire_done_records[OF assms(1)]
  have p1: "previousRuns (benchEvent Fire s) =
     \<lparr>rid = Suc (runCounter s), datasetLabel = label (selectedDataset s),
      sampleName = selectedFileName s, species = Some (mockSpecies (selectedDataset s)),
      runConfidence = Some (mockAccuracy (selectedDataset s)), before = Some 2048,
      after = Some (mockSelectedFeatures (selectedDataset s))\<rparr> # take 3 (previousRuns s)"
    using R(1) by simp
  have p2: "hd (previousRuns (benchEvent Fire s)) =
     \<lparr>rid = runCounter (benchEvent Fire s), datasetLabel = label (selectedDataset s),
      sampleName = selectedFileName s, species = predictedSpecies (benchEvent Fire s),
      runConfidence = confidence (benchEvent Fire s), before = featureBefore (benchEvent Fire s),
      after = featureAfter (benchEvent Fire s)\<rparr>"
    using R by simp
  have p3: "stage (benchEvent Fire s) = Done" and p4: "runCounter (benchEvent Fire s) = Suc (runCounter s)"
    using R by simp_all
  have p5: "length (previousRuns (benchEvent Fire s)) \<le> 4"
    unfolding p1 by simp
  note F = full_run_reaches_done[OF assms(2), of nm]
  have "exec [RunSample nm, Fire, Fire, Fire] t = benchEvent Fire (exec [RunSample nm, Fire, Fire] t)"
    using exec_snoc[of "[RunSample nm, Fire, Fire]" Fire t] by simp
  then have p6: "previousRuns (exec [RunSample nm, Fire, Fire, Fire] t) =
     \<lparr>rid = Suc (runCounter t), datasetLabel = label (selectedDataset t),
      sampleName = Some (formatPathLabel nm), species = Some (mockSpecies (selectedDataset t)),
      runConfidence = Some (mockAccuracy (selectedDataset t)), before = Some 2048,
      after = Some (mockSelectedFeatures (selectedDataset t))\<rparr> # take 3 (previousRuns t)"
    using fire_done_records(1)[OF F(1)] by (simp add: F)
  have a: "historyInv (exec es initialBench)"
    by (rule exec_invariant)
       (simp_all add: benchEvent_historyInv, simp add: historyInv_def initialBench_def)
  have "length (map rid (previousRuns (exec es initialBench))) \<le> 4"
    using a unfolding historyInv_def by (simp del: upt_Suc)
  then have b: "length (previousRuns (exec es initialBench)) \<le> 4"
    by simp
  have d: "map rid (previousRuns (exec es initialBench)) =
       take 4 (rev [1..<Suc (runCounter (exec es initialBench))])"
    using a by (simp add: historyInv_def del: upt_Suc)
  have e: "previousRuns (finishRun s) =
     \<lparr>rid = runCounter (finishRun s), datasetLabel = label (selectedDataset s),
      sampleName = selectedFileName s, species = predictedSpecies (finishRun s),
      runConfidence = confidence (finishRun s), before = featureBefore (finishRun s),
      after = featureAfter (finishRun s)\<rparr> # take 3 (previousRuns s)"
    by (simp add: finishRun_history finishRun_results)
  have f: "length (previousRuns (finishRun s)) \<le> 4"
    by (simp add: finishRun_history)
  show ?thesis using p1 p2 p3 p4 p5 p6 b d e f by blast
qed


theorem run_history_bounded_most_recent_first_witness:
  "earliest (timers beforeSecondDone) = Some (5000, ToDone)
   \<and> timers initialBench = []
   \<and> map rid (previousRuns beforeSecondDone) = [1]
   \<and> map rid (previousRuns (benchEvent Fire beforeSecondDone)) = [2, 1]
   \<and> hd (previousRuns (benchEvent Fire beforeSecondDone)) =
       \<lparr>rid = 2, datasetLabel = ''Swedish Leaf'', sampleName = Some ''img02.JPG'',
        species = Some ''Quercus robur (English Oak)'', runConfidence = Some (968 / 10),
        before = Some 2048, after = Some 45\<rparr>
   \<and> previousRuns (exec [RunSample ''img01.png'', Fire, Fire, Fire] initialBench) =
       [\<lparr>rid = 1, datasetLabel = ''Swedish Leaf'', sampleName = Some ''img01.png'',
         species = Some ''Quercus robur (English Oak)'', runConfidence = Some (968 / 10),
         before = Some 2048, after = Some 45\<rparr>]"
proof -
  have st: "beforeSecondDone =
      \<lparr>isDatasetDragging = False, selectedDatasetKey = Swedish,
       selectedFileName = Some ''img02.JPG'',
       datasetFileNames = \<lparr>swedish = None, flavia = None, philippine = None\<rparr>,
       datasetSampleNames = \<lparr>swedish = [], flavia = [], philippine = []\<rparr>,
       stage = Optimizing, predictedSpecies = None, confidence = None,
       featureBefore = None, featureAfter = None, runCounter = 1,
       previousRuns =
         [\<lparr>rid = 1, datasetLabel = ''Swedish Leaf'', sampleName = Some ''img01.png'',
           species = Some ''Quercus robur (English Oak)'', runConfidence = Some (968 / 10),
           before = Some 2048, after = Some 45\<rparr>],
       compareBaseline = False, optimizationProgress = 0, clock = 4100,
       timers = [(5000, ToDone)], frames = [1600, 4100]\<rparr>"
    by code_simp
  have h1: "earliest (timers beforeSecondDone) = Some (5000, ToDone)"
    by (simp add: st)
  have h2: "timers initialBench = []"
    by (simp add: initialBench_def)
  note T = run_history_bounded_most_recent_first[OF h1 h2, of "''img01.png''"]
  have o: "map rid (previousRuns beforeSecondDone) = [1]"
    by (simp add: st)
  have c: "runCounter beforeSecondDone = 1"
    "label (selectedDataset beforeSecondDone) = ''Swedish Leaf''"
    "selectedFileName beforeSecondDone = Some ''img02.JPG''"
    "mockSpecies (selectedDataset beforeSecondDone) = ''Quercus robur (English Oak)''"
    "mockAccuracy (selectedDataset beforeSecondDone) = 968 / 10"
    "mockSelectedFeatures (selectedDataset beforeSecondDone) = 45"
    by (simp_all add: st selectedDataset_def DATASETS_def mockSpecies_def)
  have i: "runCounter initialBench = 0" "previousRuns initialBench = []"
    "label (selectedDataset initialBench) = ''Swedish Leaf''"
    "formatPathLabel ''img01.png'' = ''img01.png''"
    "mockSpecies (selectedDataset initialBench) = ''Quercus robur (English Oak)''"
    "mockAccuracy (selectedDataset initialBench) = 968 / 10"
    "mockSelectedFeatures (selectedDataset initialBench) = 45"
    by (simp_all add: initialBench_def selectedDataset_def DATASETS_def mockSpecies_def
          formatPathLabel_def isSeparator_def)
  have "previousRuns (benchEvent Fire beforeSecondDone) =
     \<lparr>rid = Suc (runCounter beforeSecondDone),
      datasetLabel = label (selectedDataset beforeSecondDone),
      sampleName = selectedFileName beforeSecondDone,
      species = Some (mockSpecies (selectedDataset beforeSecondDone)),
      runConfidence = Some (mockAccuracy (selectedDataset beforeSecondDone)), before = Some 2048,
      after = Some (mockSelectedFeatures (selectedDataset beforeSecondDone))\<rparr>
     # take 3 (previousRuns beforeSecondDone)"
    using T by blast
  then have n: "previousRuns (benchEvent Fire beforeSecondDone) =
       \<lparr>rid = 2, datasetLabel = ''Swedish Leaf'', sampleName = Some ''img02.JPG'',
        species = Some ''Quercus robur (English Oak)'', runConfidence = Some (968 / 10),
        before = Some 2048, after = Some 45\<rparr> # take 3 (previousRuns beforeSecondDone)"
    by (simp add: c)
  have n1: "map rid (previousRuns (benchEvent Fire beforeSecondDone)) = [2, 1]"
    unfolding n using o by (simp add: take_map[symmetric])
  have n2: "hd (previousRuns (benchEvent Fire beforeSecondDone)) =
       \<lparr>rid = 2, datasetLabel = ''Swedish Leaf'', sampleName = Some ''img02.JPG'',
        species = Some ''Quercus robur (English Oak)'', runConfidence = Some (968 / 10),
        before = Some 2048, after = Some 45\<rparr>"
    unfolding n by simp
  have "previousRuns (exec [RunSample ''img01.png'', Fire, Fire, Fire] initialBench) =
     \<lparr>rid = Suc (runCounter initialBench), datasetLabel = label (selectedDataset initialBench),
      sampleName = Some (formatPathLabel ''img01.png''),
      species = Some (mockSpecies (selectedDataset initialBench)),
      runConfidence = Some (mockAccuracy (selectedDataset initialBench)), before = Some 2048,
      after = Some (mockSelectedFeatures (selectedDataset initialBench))\<rparr>
     # take 3 (previousRuns initialBench)"
    using T by blast
  then have m: "previousRuns (exec [RunSample ''img01.png'', Fire, Fire, Fire] initialBench) =
       [\<lparr>rid = 1, datasetLabel = ''Swedish Leaf'', sampleName = Some ''img01.png'',
         species = Some ''Quercus robur (English Oak)'', runConfidence = Some (968 / 10),
         before = Some 2048, after = Some 45\<rparr>]"
    by (simp add: i)
  show ?thesis using h1 h2 o n1 n2 m by blast
qed

section \<open>Benchmark view: the baseline switch\<close>

text \<open>
  Claim C8. The click on the baseline switch negates \<open>compareBaseline\<close> and writes
  nothing else: confidence, feature counts, optimization progress, history, run counter,
  species, stage and the selected profile are what they were, the list of recent runs is
  the same, and the results card differs only in whether the comparison block is shown.
\<close>

theorem baseline_toggle_only_visibility:
  "benchEvent ToggleCompare s = s\<lparr>compareBaseline := \<not> compareBaseline s\<rparr>
   \<and> confidence (benchEvent ToggleCompare s) = confidence s
   \<and> featureBefore (benchEvent ToggleCompare s) = featureBefore s
   \<and> featureAfter (benchEvent ToggleCompare s) = featureAfter s
   \<and> optimizationProgress (benchEvent ToggleCompare s) = optimizationProgress s
   \<and> previousRuns (benchEvent ToggleCompare s) = previousRuns s
   \<and> runCounter (benchEvent ToggleCompare s) = runCounter s
   \<and> predictedSpecies (benchEvent ToggleCompare s) = predictedSpecies s
   \<and> stage (benchEvent ToggleCompare s) = stage s
   \<and> selectedDataset (benchEvent ToggleCompare s) = selectedDataset s
   \<and> recentRuns (benchEvent ToggleCompare s) = recentRuns s
   \<and> resultsCard (benchEvent ToggleCompare s) =
       map_option (\<lambda>c. c\<lparr>baselineComparisonShown := \<not> baselineComparisonShown c\<rparr>)
         (resultsCard s)"
  by (simp add: selectedDataset_def recentRuns_def resultsCard_def)

section \<open>Live identification view: files\<close>

lemma execLive_invariant:
  assumes "P s" and "\<And>e t. P t \<Longrightarrow> P (liveEvent e t)"
  shows "P (execLive es s)"
  using assms(1) unfolding execLive_def
  by (induction es arbitrary: s) (simp_all add: assms(2))

lemma stopCamera_results [simp]:
  "liveStage (stopCamera s) = liveStage s"
  "livePredictedSpecies (stopCamera s) = livePredictedSpecies s"
  "liveConfidence (stopCamera s) = liveConfidence s"
  by (simp_all add: stopCamera_def Let_def split: option.splits)

lemma handleFiles_doneInv: "doneInv s \<Longrightarrow> doneInv (handleFiles files s)"
  by (auto simp: doneInv_def handleFiles_def runClassification_def liveResetResults_def Let_def
      split: option.splits list.splits)

lemma liveEvent_doneInv: "doneInv s \<Longrightarrow> doneInv (liveEvent e s)"
proof (cases e)
  case (FileChange files)
  assume "doneInv s" then show ?thesis using FileChange by (simp add: handleFiles_doneInv)
next
  case (BlobReady b)
  assume h: "doneInv s"
  have "doneInv (s\<lparr>blobCallbacks := blobCallbacks s - 1\<rparr>)" using h by (simp add: doneInv_def)
  from handleFiles_doneInv[OF this] h show ?thesis using BlobReady
    by (simp add: blobReady_def closeCamera_def doneInv_def Let_def)
next
  case (GetUserMediaRejected i err)
  assume "doneInv s" then show ?thesis using GetUserMediaRejected
    by (simp add: getUserMediaRejected_def doneInv_def split: CameraTask.splits Attempt.splits)
qed (simp_all add: doneInv_def openCamera_def startCamera_def closeCamera_def unmount_def
       captureFromCamera_def classificationDone_def getUserMediaResolved_def
       loadedMetadata_def playSettled_def Let_def split: option.splits)

text \<open>
  Claim C1. A file list whose first file declares a mime type starting with \<open>image/\<close>
  takes the live view, from the idle stage as from any other, to \<open>processing\<close> with the
  results cleared and one more classification timeout pending; when that timeout runs the
  stage is \<open>done\<close>, the predicted species is "Banaba (Lagerstroemia speciosa)" and the
  confidence is 99.2. In every state the view reaches from its initial state, stage
  \<open>done\<close> comes with these two values.
\<close>

theorem image_file_is_classified:
  assumes "startsWith (type f) ''image/''"
  shows "liveStage (handleFiles (Some (f # fs)) s) = Processing
       \<and> liveSelectedFileName (handleFiles (Some (f # fs)) s) = Some (name f)
       \<and> livePredictedSpecies (handleFiles (Some (f # fs)) s) = None
       \<and> liveConfidence (handleFiles (Some (f # fs)) s) = None
       \<and> classificationTimers (handleFiles (Some (f # fs)) s) = Suc (classificationTimers s)
       \<and> alerts (handleFiles (Some (f # fs)) s) = alerts s
       \<and> liveStage (liveEvent ClassificationTimer (handleFiles (Some (f # fs)) s)) = LiveDone
       \<and> livePredictedSpecies (liveEvent ClassificationTimer (handleFiles (Some (f # fs)) s))
           = Some ''Banaba (Lagerstroemia speciosa)''
       \<and> liveConfidence (liveEvent ClassificationTimer (handleFiles (Some (f # fs)) s))
           = Some (992 / 10)
       \<and> (liveStage (execLive es initialLive) = LiveDone \<longrightarrow>
            livePredictedSpecies (execLive es initialLive) = Some ''Banaba (Lagerstroemia speciosa)''
            \<and> liveConfidence (execLive es initialLive) = Some (992 / 10))"
proof -
  have "doneInv (execLive es initialLive)"
    by (rule execLive_invariant) (simp_all add: liveEvent_doneInv, simp add: doneInv_def initialLive_def)
  then show ?thesis using assms
    by (simp add: doneInv_def handleFiles_def runClassification_def liveResetResults_def
        classificationDone_def Let_def)
qed

theorem image_file_is_classified_witness:
  "startsWith (type leafPng) ''image/''
   \<and> liveStage initialLive = LiveIdle
   \<and> liveStage (handleFiles (Some [leafPng]) initialLive) = Processing
   \<and> liveStage (liveEvent ClassificationTimer (handleFiles (Some [leafPng]) initialLive)) = LiveDone
   \<and> livePredictedSpecies (liveEvent ClassificationTimer (handleFiles (Some [leafPng]) initialLive))
       = Some ''Banaba (Lagerstroemia speciosa)''
   \<and> liveConfidence (liveEvent ClassificationTimer (handleFiles (Some [leafPng]) initialLive))
       = Some (992 / 10)
   \<and> liveStage (execLive [FileChange (Some [leafPng]), ClassificationTimer] initialLive) = LiveDone
   \<and> livePredictedSpecies (execLive [FileChange (Some [leafPng]), ClassificationTimer] initialLive)
       = Some ''Banaba (Lagerstroemia speciosa)''
   \<and> liveConfidence (execLive [FileChange (Some [leafPng]), ClassificationTimer] initialLive)
       = Some (992 / 10)"
proof -
  have h: "startsWith (type leafPng) ''image/''"
    by (simp add: leafPng_def startsWith_def)
  have i: "liveStage initialLive = LiveIdle"
    by (simp add: initialLive_def)
  have j: "liveStage (execLive [FileChange (Some [leafPng]), ClassificationTimer] initialLive) = LiveDone"
    by (simp add: execLive_def handleFiles_def leafPng_def startsWith_def runClassification_def
        liveResetResults_def classificationDone_def initialLive_def Let_def)
  show ?thesis
    using image_file_is_classified
            [OF h, of "[]" initialLive "[FileChange (Some [leafPng]), ClassificationTimer]"] h i j
    by blast
qed

text \<open>
  Claim C4. A file list whose first file declares a mime type that does not start with
  \<open>image/\<close> raises the alert and changes nothing else: the stage (idle when it was
  idle), the selected file name, the predicted species, the confidence and the pending
  timeouts are what they were.
\<close>

theorem non_image_file_is_rejected:
  assumes "\<not> startsWith (type f) ''image/''"
  shows "handleFiles (Some (f # fs)) s =
           s\<lparr>alerts := alerts s @ [''Please upload a plant leaf image (JPG/PNG/TIFF).'']\<rparr>
       \<and> liveStage (handleFiles (Some (f # fs)) s) = liveStage s
       \<and> liveSelectedFileName (handleFiles (Some (f # fs)) s) = liveSelectedFileName s
       \<and> livePredictedSpecies (handleFiles (Some (f # fs)) s) = livePredictedSpecies s
       \<and> liveConfidence (handleFiles (Some (f # fs)) s) = liveConfidence s
       \<and> classificationTimers (handleFiles (Some (f # fs)) s) = classificationTimers s"
  using assms by (simp add: handleFiles_def)

theorem non_image_file_is_rejected_witness:
  "\<not> startsWith (type notesTxt) ''image/''
   \<and> alerts (handleFiles (Some [notesTxt]) initialLive) =
       [''Please upload a plant leaf image (JPG/PNG/TIFF).'']
   \<and> liveStage (handleFiles (Some [notesTxt]) initialLive) = LiveIdle
   \<and> liveSelectedFileName (handleFiles (Some [notesTxt]) initialLive) = None
   \<and> livePredictedSpecies (handleFiles (Some [notesTxt]) initialLive) = None
   \<and> liveConfidence (handleFiles (Some [notesTxt]) initialLive) = None"
proof -
  have h: "\<not> startsWith (type notesTxt) ''image/''"
    by (simp add: notesTxt_def startsWith_def)
  show ?thesis using non_image_file_is_rejected[OF h, of "[]" initialLive] h
    by (simp add: initialLive_def)
qed

section \<open>Live identification view: releasing the camera\<close>

text \<open>
  Claim C6. The overlay is opened and closed (or the view unmounted) while the first
  \<open>getUserMedia\<close> call is pending, and then the call resolves with a stream of one
  track: \<open>startCamera\<close> stores the stream with the overlay closed, and the track stays
  active. When the stream arrives before the close, the close stops the track and clears
  the stored stream.
\<close>

theorem close_while_acquisition_pending_leaks_track:
  "isCameraOpen (execLive [OpenCamera, CloseCamera, GetUserMediaResolved 0 [1]] initialLive) = False
   \<and> cameraStream (execLive [OpenCamera, CloseCamera, GetUserMediaResolved 0 [1]] initialLive) = Some [1]
   \<and> activeTracks (execLive [OpenCamera, CloseCamera, GetUserMediaResolved 0 [1]] initialLive) = [1]
   \<and> cameraStream (execLive [OpenCamera, Unmount, GetUserMediaResolved 0 [1]] initialLive) = Some [1]
   \<and> activeTracks (execLive [OpenCamera, Unmount, GetUserMediaResolved 0 [1]] initialLive) = [1]
   \<and> cameraStream (execLive [OpenCamera, GetUserMediaResolved 0 [1], CloseCamera] initialLive) = None
   \<and> activeTracks (execLive [OpenCamera, GetUserMediaResolved 0 [1], CloseCamera] initialLive) = []"
  by (simp add: execLive_def initialLive_def openCamera_def startCamera_def closeCamera_def
      stopCamera_def unmount_def getUserMediaResolved_def Let_def)

section \<open>Live identification view: camera errors\<close>



text \<open>
  Without \<open>getUserMedia\<close> in the browser no acquisition is attempted: \<open>startCamera\<close>
  reports that with a text of its own and returns.
\<close>

lemma startCamera_unsupported:
  "\<not> getUserMediaSupported s \<Longrightarrow>
     startCamera s = s\<lparr>cameraError := Some ''Camera not supported in this browser.''\<rparr>"
  by (simp add: startCamera_def)

text \<open>
  The rejection of the first or of the second attempt surfaces nothing: the call goes on
  with the next set of constraints.
\<close>

lemma rejected_attempt_falls_back:
  assumes "i < length (cameraTasks s)"
  shows "cameraTasks s ! i = AwaitGetUserMedia IdealResolution \<Longrightarrow>
           getUserMediaRejected i err s =
             s\<lparr>cameraTasks := (cameraTasks s)[i := AwaitGetUserMedia FacingModeOnly]\<rparr>"
    and "cameraTasks s ! i = AwaitGetUserMedia FacingModeOnly \<Longrightarrow>
           getUserMediaRejected i err s =
             s\<lparr>cameraTasks := (cameraTasks s)[i := AwaitGetUserMedia AnyCamera]\<rparr>"
  using assms by (simp_all add: getUserMediaRejected_def)




section \<open>Benchmark view: the surfaced results\<close>

lemma selectedDataset_constants:
  "selectedDatasetKey s = Swedish \<Longrightarrow>
     mockAccuracy (selectedDataset s) = 968 / 10 \<and> mockSelectedFeatures (selectedDataset s) = 45"
  "selectedDatasetKey s = Flavia \<Longrightarrow>
     mockAccuracy (selectedDataset s) = 951 / 10 \<and> mockSelectedFeatures (selectedDataset s) = 52"
  "selectedDatasetKey s = Philippine \<Longrightarrow>
     mockAccuracy (selectedDataset s) = 943 / 10 \<and> mockSelectedFeatures (selectedDataset s) = 40"
  by (simp_all add: selectedDataset_def DATASETS_def)

text \<open>
  Claim C2. A run with the Swedish profile selected ends with confidence 96.8 and feature
  counts 2048 and 45 in the state, and the closing sentence of the results card reads
  96.8%, but the card shows "95.1%" under "Model Accuracy" and "1,907" validation images:
  these are literals of the template, the values of the Flavia profile. The same holds
  for a run with the Philippine profile (94.3 in the state, "95.1%" on the card).
\<close>

theorem model_accuracy_headline_is_fixed:
  "stage (exec [RunSample ''leaf1.jpg'', Fire, Fire, Fire] initialBench) = Done
   \<and> selectedDatasetKey (exec [RunSample ''leaf1.jpg'', Fire, Fire, Fire] initialBench) = Swedish
   \<and> confidence (exec [RunSample ''leaf1.jpg'', Fire, Fire, Fire] initialBench) = Some (968 / 10)
   \<and> featureBefore (exec [RunSample ''leaf1.jpg'', Fire, Fire, Fire] initialBench) = Some 2048
   \<and> featureAfter (exec [RunSample ''leaf1.jpg'', Fire, Fire, Fire] initialBench) = Some 45
   \<and> map_option modelAccuracy
         (resultsCard (exec [RunSample ''leaf1.jpg'', Fire, Fire, Fire] initialBench))
       = Some ''95.1%''
   \<and> map_option validatedOn
         (resultsCard (exec [RunSample ''leaf1.jpg'', Fire, Fire, Fire] initialBench))
       = Some ''1,907''
   \<and> map_option closingAccuracy
         (resultsCard (exec [RunSample ''leaf1.jpg'', Fire, Fire, Fire] initialBench))
       = Some ''96.8%''
   \<and> confidence
         (exec [SelectDataset Philippine, RunSample ''leaf1.jpg'', Fire, Fire, Fire] initialBench)
       = Some (943 / 10)
   \<and> map_option modelAccuracy
         (resultsCard
            (exec [SelectDataset Philippine, RunSample ''leaf1.jpg'', Fire, Fire, Fire]
               initialBench))
       = Some ''95.1%''"
  by code_simp

section \<open>Benchmark view: the stage sequence of a run\<close>

lemma remdups_adj_stagesFrom:
  "remdups_adj (x # stagesFrom t es) =
     (if x = stage t then remdups_adj (stagesFrom t es) else x # remdups_adj (stagesFrom t es))"
  by (cases es) simp_all

lemma step_stage [simp]:
  "stage (step start s) = stage s" "timers (step start s) = timers s"
  by (simp_all add: step_def requestAnimationFrame_def Let_def)

lemma fold_step_stage [simp]:
  "stage (fold step fs s) = stage s" "timers (fold step fs s) = timers s"
  by (induction fs arbitrary: s) simp_all

lemma handleDatasetFiles_stage [simp]:
  "stage (handleDatasetFiles files s) = stage s"
  "timers (handleDatasetFiles files s) = timers s"
  by (simp_all add: handleDatasetFiles_def Let_def split: option.splits list.splits)

lemma passive_event_stage:
  assumes "\<not> isRunSample e" and "\<not> isFire e"
  shows "stage (benchEvent e s) = stage s \<and> timers (benchEvent e s) = timers s"
  using assms
  by (cases e) (simp_all add: onDatasetDrop_def onDatasetChange_def animationFrame_def)

lemma fire_idle: "timers s = [] \<Longrightarrow> fire s = s"
  by (simp add: fire_def)

lemma fire_runInv:
  assumes "runInv r s" and "r < 3"
  shows "runInv (Suc r) (fire s)"
proof -
  from assms obtain cb where cb: "map snd (timers s) = [cb]"
    and which: "cb = (if r = 0 then ToExtracting else if r = 1 then ToOptimizing else ToDone)"
    by (auto simp: runInv_def)
  then obtain due where t: "timers s = [(due, cb)]"
    by (cases "timers s") auto
  consider "r = 0" | "r = 1" | "r = 2" using assms(2) by linarith
  then show ?thesis
  proof cases
    case 1
    then show ?thesis using t which
      by (simp add: runInv_def fire_def setTimeout_def fullSequence_def)
  next
    case 2
    then show ?thesis using t which
      by (simp add: runInv_def fire_def setTimeout_def requestAnimationFrame_def
          fullSequence_def Let_def)
  next
    case 3
    then show ?thesis using t which
      by (simp add: runInv_def fire_def finishRun_def fullSequence_def Let_def)
  qed
qed

lemma runInv_event:
  assumes "runInv r s" and "\<not> isRunSample e"
  shows "if isFire e \<and> r < 3 then runInv (Suc r) (benchEvent e s)
         else runInv r (benchEvent e s) \<and> stage (benchEvent e s) = stage s"
proof (cases "isFire e")
  case True
  then have e: "e = Fire" by (cases e) simp_all
  show ?thesis
  proof (cases "r < 3")
    case True
    then show ?thesis using assms(1) e by (simp add: fire_runInv)
  next
    case False
    then have "timers s = []" using assms(1) by (simp add: runInv_def)
    then show ?thesis using assms(1) e False by (simp add: fire_idle)
  qed
next
  case False
  then show ?thesis
    using passive_event_stage[OF assms(2) False, of s] assms(1) by (simp add: runInv_def)
qed

lemma fullSequence_distinct: "r < 3 \<Longrightarrow> fullSequence ! r \<noteq> fullSequence ! Suc r"
proof -
  assume "r < 3"
  then consider "r = 0" | "r = 1" | "r = 2" by linarith
  then show ?thesis by cases (simp_all add: fullSequence_def)
qed

lemma stages_of_run:
  assumes "runInv r s" and "filter isRunSample es = []"
  shows "remdups_adj (stagesFrom s es) =
           drop r (take (Suc (min 3 (r + length (filter isFire es)))) fullSequence)"
  using assms
proof (induction es arbitrary: s r)
  case Nil
  then have "r \<le> 3" and st: "stage s = fullSequence ! r" by (simp_all add: runInv_def)
  then consider "r = 0" | "r = 1" | "r = 2" | "r = 3" by linarith
  then show ?case using st by cases (simp_all add: fullSequence_def)
next
  case (Cons e es)
  from Cons.prems(2) have ne: "\<not> isRunSample e" and rest: "filter isRunSample es = []"
    by (simp_all split: if_splits)
  have st: "stage s = fullSequence ! r" and r3: "r \<le> 3"
    using Cons.prems(1) by (simp_all add: runInv_def)
  show ?case
  proof (cases "isFire e \<and> r < 3")
    case True
    then have inv: "runInv (Suc r) (benchEvent e s)"
      using runInv_event[OF Cons.prems(1) ne] by simp
    then have st': "stage (benchEvent e s) = fullSequence ! Suc r" by (simp add: runInv_def)
    have ih: "remdups_adj (stagesFrom (benchEvent e s) es) =
        drop (Suc r) (take (Suc (min 3 (Suc r + length (filter isFire es)))) fullSequence)"
      by (rule Cons.IH[OF inv rest])
    let ?n = "Suc (min 3 (Suc r + length (filter isFire es)))"
    have len: "r < length (take ?n fullSequence)"
      using True by (simp add: fullSequence_def min_def)
    have "remdups_adj (stagesFrom s (e # es)) =
            fullSequence ! r # drop (Suc r) (take ?n fullSequence)"
      using st st' ih fullSequence_distinct[of r] True
      by (simp add: remdups_adj_stagesFrom)
    also have "fullSequence ! r = take ?n fullSequence ! r"
      using True by (simp add: min_def)
    also have "take ?n fullSequence ! r # drop (Suc r) (take ?n fullSequence) =
                 drop r (take ?n fullSequence)"
      using len by (rule Cons_nth_drop_Suc)
    finally show ?thesis using True by simp
  next
    case False
    then have inv: "runInv r (benchEvent e s)" and same: "stage (benchEvent e s) = stage s"
      using runInv_event[OF Cons.prems(1) ne] by simp_all
    have ih: "remdups_adj (stagesFrom (benchEvent e s) es) =
        drop r (take (Suc (min 3 (r + length (filter isFire es)))) fullSequence)"
      by (rule Cons.IH[OF inv rest])
    have cnt: "min 3 (r + length (filter isFire (e # es))) = min 3 (r + length (filter isFire es))"
      using False r3 by (cases "isFire e") simp_all
    show ?thesis
      using ih same by (simp only: cnt stagesFrom.simps remdups_adj_stagesFrom) simp
  qed
qed

lemma stages_when_quiet:
  assumes "timers s = []" and "filter isRunSample es = []"
  shows "remdups_adj (stagesFrom s es) = [stage s]"
  using assms
proof (induction es arbitrary: s)
  case Nil
  then show ?case by simp
next
  case (Cons e es)
  from Cons.prems(2) have ne: "\<not> isRunSample e" and rest: "filter isRunSample es = []"
    by (simp_all split: if_splits)
  have keep: "stage (benchEvent e s) = stage s \<and> timers (benchEvent e s) = timers s"
  proof (cases "isFire e")
    case True
    then have "e = Fire" by (cases e) simp_all
    then show ?thesis using Cons.prems(1) by (simp add: fire_idle)
  next
    case False
    then show ?thesis using passive_event_stage[OF ne False] by simp
  qed
  then have "remdups_adj (stagesFrom (benchEvent e s) es) = [stage s]"
    using Cons.IH[of "benchEvent e s"] Cons.prems(1) rest by simp
  then show ?case using keep by (simp add: remdups_adj_stagesFrom)
qed

text \<open>
  Each link of the chain writes its stage and sets the timeout of the next link, in any
  state: the last link sets none.
\<close>

lemma callback_chain:
  "stage (runCallback ToExtracting t) = Extracting"
  "timers (runCallback ToExtracting t) = timers t @ [(clock t + 1100, ToOptimizing)]"
  "stage (runCallback ToOptimizing t) = Optimizing"
  "timers (runCallback ToOptimizing t) = timers t @ [(clock t + 900, ToDone)]"
  "stage (runCallback ToDone t) = Done"
  "timers (runCallback ToDone t) = timers t"
  by (simp_all add: setTimeout_def requestAnimationFrame_def finishRun_def Let_def)

text \<open>
  Claim C9 (as amended). A run is started in a view with no timeout pending, and no other run is
  started during the events that follow (clicks on profiles and on the switch, folders
  attached, time passing, animation frames, timeouts running, in any order and number).
  The start clears every result field and sets the stage to uploading. The stages shown
  from then on, repetitions dropped, are the first \<open>k + 1\<close> of uploading, extracting,
  optimizing, done, where \<open>k\<close> is the number of timeouts that have run, 3 at most:
  the stage moves one step at each timeout, whatever the state holds, and never skips a
  stage or goes back. In a view with no timeout pending the stage does not change until a
  run is started. In any state whatever, the start of the pipeline writes uploading and
  sets the timeout (500 ms) of the link that writes extracting, which sets the timeout
  (1100 ms) of the link that writes optimizing, which sets the timeout (900 ms) of the
  link that writes done, which sets none.
\<close>

theorem single_run_stage_sequence:
  assumes "timers s = []" and "filter isRunSample es = []"
  shows "predictedSpecies (runSampleFromDataset nm s) = None
       \<and> confidence (runSampleFromDataset nm s) = None
       \<and> featureBefore (runSampleFromDataset nm s) = None
       \<and> featureAfter (runSampleFromDataset nm s) = None
       \<and> optimizationProgress (runSampleFromDataset nm s) = 0
       \<and> stage (runSampleFromDataset nm s) = Uploading
       \<and> remdups_adj (stagesFrom (runSampleFromDataset nm s) es) =
           take (Suc (min 3 (length (filter isFire es)))) [Uploading, Extracting, Optimizing, Done]
       \<and> remdups_adj (stagesFrom s es) = [stage s]
       \<and> stage (runMockPipeline t) = Uploading
       \<and> timers (runMockPipeline t) = timers t @ [(clock t + 500, ToExtracting)]
       \<and> stage (runCallback ToExtracting t) = Extracting
       \<and> timers (runCallback ToExtracting t) = timers t @ [(clock t + 1100, ToOptimizing)]
       \<and> stage (runCallback ToOptimizing t) = Optimizing
       \<and> timers (runCallback ToOptimizing t) = timers t @ [(clock t + 900, ToDone)]
       \<and> stage (runCallback ToDone t) = Done
       \<and> timers (runCallback ToDone t) = timers t"
proof -
  have inv: "runInv 0 (runSampleFromDataset nm s)"
    using assms(1)
    by (simp add: runInv_def runSampleFromDataset_def runMockPipeline_def resetResults_def
        setTimeout_def fullSequence_def)
  have run: "remdups_adj (stagesFrom (runSampleFromDataset nm s) es) =
           take (Suc (min 3 (length (filter isFire es)))) [Uploading, Extracting, Optimizing, Done]"
    using stages_of_run[OF inv assms(2)] by (simp add: fullSequence_def)
  have quiet: "remdups_adj (stagesFrom s es) = [stage s]"
    by (rule stages_when_quiet[OF assms])
  have reset:
    "predictedSpecies (runSampleFromDataset nm s) = None"
    "confidence (runSampleFromDataset nm s) = None"
    "featureBefore (runSampleFromDataset nm s) = None"
    "featureAfter (runSampleFromDataset nm s) = None"
    "optimizationProgress (runSampleFromDataset nm s) = 0"
    "stage (runSampleFromDataset nm s) = Uploading"
    by (simp_all add: runSampleFromDataset_def runMockPipeline_def resetResults_def
          setTimeout_def)
  have start:
    "stage (runMockPipeline t) = Uploading"
    "timers (runMockPipeline t) = timers t @ [(clock t + 500, ToExtracting)]"
    by (simp_all add: runMockPipeline_def setTimeout_def)
  show ?thesis
    using run quiet reset start callback_chain[of t] by blast
qed

theorem single_run_stage_sequence_witness:
  "timers initialBench = []
   \<and> filter isRunSample sampleEvents = []
   \<and> stage initialBench = Idle
   \<and> remdups_adj (stagesFrom (runSampleFromDataset ''leaf1.jpg'' initialBench) sampleEvents) =
       [Uploading, Extracting, Optimizing, Done]
   \<and> remdups_adj (stagesFrom initialBench sampleEvents) = [Idle]"
proof -
  have h1: "timers initialBench = []" and i: "stage initialBench = Idle"
    by (simp_all add: initialBench_def)
  have h2: "filter isRunSample sampleEvents = []"
    by (simp add: sampleEvents_def)
  have n: "length (filter isFire sampleEvents) = 4"
    by (simp add: sampleEvents_def)
  note T = single_run_stage_sequence[OF h1 h2, of "''leaf1.jpg''" initialBench]
  have "remdups_adj (stagesFrom (runSampleFromDataset ''leaf1.jpg'' initialBench) sampleEvents) =
          take (Suc (min 3 (length (filter isFire sampleEvents))))
            [Uploading, Extracting, Optimizing, Done]"
    using T by blast
  then have a: "remdups_adj
      (stagesFrom (runSampleFromDataset ''leaf1.jpg'' initialBench) sampleEvents) =
          [Uploading, Extracting, Optimizing, Done]"
    by (simp add: n)
  have "remdups_adj (stagesFrom initialBench sampleEvents) = [stage initialBench]"
    using T by blast
  then have b: "remdups_adj (stagesFrom initialBench sampleEvents) = [Idle]"
    by (simp add: i)
  show ?thesis
    using h1 h2 i a b by blast
qed

lemma firstRunOptimizing_state:
  "firstRunOptimizing =
     \<lparr>isDatasetDragging = False, selectedDatasetKey = Swedish,
      selectedFileName = Some ''img01.png'',
      datasetFileNames = \<lparr>swedish = Some ''img01.png'', flavia = None, philippine = None\<rparr>,
      datasetSampleNames = \<lparr>swedish = [''img01.png''], flavia = [], philippine = []\<rparr>,
      stage = Optimizing, predictedSpecies = None, confidence = None,
      featureBefore = None, featureAfter = None, runCounter = 0,
      previousRuns = [], compareBaseline = False, optimizationProgress = 0,
      clock = 1600, timers = [(2500, ToDone)], frames = [1600]\<rparr>"
  by code_simp

text \<open>
  Claim C9 as stated fails for a run started while another is in flight: the sample is
  clicked again when the first run is at optimizing, and the stages shown from that click
  on are uploading, extracting, done, optimizing, done. The last timeout of the first run
  takes the stage from extracting to done and publishes its results in the middle of the
  second run, and the next timeout of the second run takes the stage from done back to
  optimizing.
\<close>

theorem overlapping_runs_revert_stage:
  "slot (datasetSampleNames firstRunOptimizing) (selectedDatasetKey firstRunOptimizing) =
     [''img01.png'']
   \<and> stage firstRunOptimizing = Optimizing
   \<and> timers firstRunOptimizing = [(2500, ToDone)]
   \<and> stagesFrom (benchEvent (RunSample ''img01.png'') firstRunOptimizing)
         [Fire, Fire, Fire, Fire] =
       [Uploading, Extracting, Done, Optimizing, Done]
   \<and> predictedSpecies (exec [RunSample ''img01.png'', Fire, Fire] firstRunOptimizing) =
       Some ''Quercus robur (English Oak)''"
  by (simp add: firstRunOptimizing_state exec_def fire_def runSampleFromDataset_def
      runMockPipeline_def resetResults_def setTimeout_def requestAnimationFrame_def
      finishRun_def selectedDataset_def DATASETS_def formatPathLabel_def isSeparator_def
      Let_def)

section \<open>Benchmark view: attaching a folder\<close>

lemma str_includes_sublist: "str_includes s p \<longleftrightarrow> sublist p s"
  by (induction s) (simp_all add: sublist_Cons_right)

lemma inferDatasetKeyFromPath_sublist:
  "inferDatasetKeyFromPath raw =
     (if sublist ''swedish'' (toLowerCase raw) then Some Swedish
      else if sublist ''flavia'' (toLowerCase raw) then Some Flavia
      else if sublist ''philippine'' (toLowerCase raw) \<or> sublist ''medicinal'' (toLowerCase raw)
        then Some Philippine
      else None)"
  by (simp add: inferDatasetKeyFromPath_def Let_def str_includes_sublist)

lemma slot_setSlot: "slot (setSlot k v r) k' = (if k' = k then v else slot r k')"
  by (cases k; cases k') simp_all

lemma handleDatasetFiles_Cons:
  "selectedDatasetKey (handleDatasetFiles (Some (f # fs)) s) = targetKey f s"
  "datasetSampleNames (handleDatasetFiles (Some (f # fs)) s) =
     setSlot (targetKey f s)
       (map (\<lambda>g. formatPathLabel (rawPath g))
          (take 3 (if filter isImageFile (f # fs) \<noteq> [] then filter isImageFile (f # fs)
                   else f # fs)))
       (datasetSampleNames s)"
  by (simp_all add: handleDatasetFiles_def targetKey_def Let_def
        split: option.splits list.splits)

text \<open>
  Claim C5 (as amended). For a folder attached by drop or by browse, the profile is
  inferred from the path of the folder's first file alone (its relative path, or its name
  when it has none): the lower-cased path is searched for "swedish", then for "flavia",
  then for "philippine" or "medicinal", and the first hit names the profile. Paths that
  differ only in the case of their letters give the same answer. When a profile is
  inferred the selection is switched to it; otherwise the selection stays.
\<close>

theorem folder_inference_from_first_path:
  "selectedDatasetKey (onDatasetDrop (Some (f # fs)) s) =
     (case inferDatasetKeyFromPath (rawPath f) of Some k \<Rightarrow> k | None \<Rightarrow> selectedDatasetKey s)
   \<and> selectedDatasetKey (onDatasetChange (Some (f # fs)) s) =
     (case inferDatasetKeyFromPath (rawPath f) of Some k \<Rightarrow> k | None \<Rightarrow> selectedDatasetKey s)
   \<and> rawPath f = (if webkitRelativePath f \<noteq> [] then webkitRelativePath f else name f)
   \<and> inferDatasetKeyFromPath raw =
       (if sublist ''swedish'' (toLowerCase raw) then Some Swedish
        else if sublist ''flavia'' (toLowerCase raw) then Some Flavia
        else if sublist ''philippine'' (toLowerCase raw) \<or> sublist ''medicinal'' (toLowerCase raw)
          then Some Philippine
        else None)
   \<and> (toLowerCase other = toLowerCase raw \<longrightarrow>
        inferDatasetKeyFromPath other = inferDatasetKeyFromPath raw)"
proof -
  have a: "selectedDatasetKey (onDatasetDrop (Some (f # fs)) s) = targetKey f s"
    unfolding onDatasetDrop_def
    by (simp add: handleDatasetFiles_Cons targetKey_def split: option.splits)
  have b: "selectedDatasetKey (onDatasetChange (Some (f # fs)) s) = targetKey f s"
    unfolding onDatasetChange_def by (simp add: handleDatasetFiles_Cons)
  have c: "toLowerCase other = toLowerCase raw \<longrightarrow>
        inferDatasetKeyFromPath other = inferDatasetKeyFromPath raw"
    by (simp add: inferDatasetKeyFromPath_def)
  show ?thesis
    using a b c inferDatasetKeyFromPath_sublist[of raw]
    by (simp add: targetKey_def rawPath_def)
qed

theorem folder_inference_from_first_path_witness:
  "toLowerCase ''Leaves/FLAVIA/Img02.jpg'' = toLowerCase ''leaves/flavia/img02.JPG''
   \<and> inferDatasetKeyFromPath ''Leaves/FLAVIA/Img02.jpg'' = Some Flavia
   \<and> inferDatasetKeyFromPath ''leaves/flavia/img02.JPG'' = Some Flavia
   \<and> selectedDatasetKey initialBench = Swedish
   \<and> selectedDatasetKey (onDatasetChange (Some [flaviaImg, batchImg]) initialBench) = Flavia
   \<and> selectedDatasetKey (onDatasetDrop (Some [flaviaImg, batchImg]) initialBench) = Flavia"
proof -
  note T = folder_inference_from_first_path
             [of flaviaImg "[batchImg]" initialBench "''leaves/flavia/img02.JPG''"
                 "''Leaves/FLAVIA/Img02.jpg''"]
  have l: "toLowerCase ''Leaves/FLAVIA/Img02.jpg'' = toLowerCase ''leaves/flavia/img02.JPG''"
    by (simp add: toLowerCase_def toLowerCaseChar_def)
  have i: "inferDatasetKeyFromPath ''leaves/flavia/img02.JPG'' = Some Flavia"
    by code_simp
  have r: "rawPath flaviaImg = ''leaves/flavia/img02.JPG''"
    by (simp add: rawPath_def flaviaImg_def)
  have i': "inferDatasetKeyFromPath ''Leaves/FLAVIA/Img02.jpg'' = Some Flavia"
    using T l i by simp
  have s0: "selectedDatasetKey initialBench = Swedish"
    by (simp add: initialBench_def)
  have c1: "selectedDatasetKey (onDatasetChange (Some [flaviaImg, batchImg]) initialBench) = Flavia"
    using T i r by simp
  have c2: "selectedDatasetKey (onDatasetDrop (Some [flaviaImg, batchImg]) initialBench) = Flavia"
    using T i r by simp
  show ?thesis using l i i' s0 c1 c2 by blast
qed

text \<open>
  Claim C5 as stated fails: in a folder whose second file has a path with "flavia" in it,
  while the path of the first file names no profile, nothing is inferred and the
  selection stays on Swedish.
\<close>

theorem later_file_path_is_not_matched:
  "inferDatasetKeyFromPath (rawPath flaviaImg) = Some Flavia
   \<and> inferDatasetKeyFromPath (rawPath batchImg) = None
   \<and> selectedDatasetKey initialBench = Swedish
   \<and> selectedDatasetKey (onDatasetChange (Some [batchImg, flaviaImg]) initialBench) = Swedish
   \<and> selectedDatasetKey (onDatasetDrop (Some [batchImg, flaviaImg]) initialBench) = Swedish"
  by code_simp

text \<open>The last part of a split path, and so the label stored for a path.\<close>

lemma splitPath_not_Nil [simp]: "splitPath raw \<noteq> []"
  by (induction raw) (simp_all split: list.splits)

lemma splitPath_no_separator: "\<forall>c\<in>set raw. \<not> isSeparator c \<Longrightarrow> splitPath raw = [raw]"
  by (induction raw) simp_all

lemma splitPath_at_separator:
  "isSeparator c \<Longrightarrow> splitPath (xs @ c # ys) = splitPath xs @ splitPath ys"
  by (induction xs) (auto split: list.splits)

lemma formatPathLabel_no_separator:
  "\<forall>c\<in>set raw. \<not> isSeparator c \<Longrightarrow> formatPathLabel raw = raw"
  by (simp add: formatPathLabel_def splitPath_no_separator)

lemma formatPathLabel_after_last_separator:
  assumes "isSeparator c" and "\<forall>d\<in>set ys. \<not> isSeparator d"
  shows "formatPathLabel (xs @ c # ys) = (if ys = [] then xs @ c # ys else ys)"
  using assms
  by (simp add: formatPathLabel_def splitPath_at_separator splitPath_no_separator Let_def)

text \<open>
  Claim C10 (as amended). For a non-empty folder, the names stored for the target profile
  (the inferred one, else the selected one) are the labels of the first three image
  files of the folder, or of the first three files of any type when the folder has no
  image file; there are at most 3 of them, and the names of the other profiles are
  untouched. A file is an image file when its lower-cased mime type starts with
  \<open>image/\<close> or its lower-cased name ends with one of the five known extensions.
  The label of a file is taken from its relative path, or from its name when it has no
  relative path: it is what follows the last separator (slash or backslash), and the
  whole path when it has no separator or nothing follows the last one.
\<close>

theorem sample_names_of_attached_folder:
  "slot (datasetSampleNames (handleDatasetFiles (Some (f # fs)) s)) (targetKey f s) =
     map (\<lambda>g. formatPathLabel (rawPath g))
       (take 3 (if filter isImageFile (f # fs) \<noteq> [] then filter isImageFile (f # fs)
                else f # fs))
   \<and> length (slot (datasetSampleNames (handleDatasetFiles (Some (f # fs)) s)) (targetKey f s)) \<le> 3
   \<and> (k \<noteq> targetKey f s \<longrightarrow>
        slot (datasetSampleNames (handleDatasetFiles (Some (f # fs)) s)) k =
        slot (datasetSampleNames s) k)
   \<and> isImageFile g =
       (prefix ''image/'' (toLowerCase (type g)) \<or>
        suffix ''.jpg'' (toLowerCase (name g)) \<or> suffix ''.jpeg'' (toLowerCase (name g)) \<or>
        suffix ''.png'' (toLowerCase (name g)) \<or> suffix ''.tif'' (toLowerCase (name g)) \<or>
        suffix ''.tiff'' (toLowerCase (name g)))
   \<and> rawPath g = (if webkitRelativePath g \<noteq> [] then webkitRelativePath g else name g)
   \<and> ((\<forall>c\<in>set raw. \<not> isSeparator c) \<longrightarrow> formatPathLabel raw = raw)
   \<and> (isSeparator c \<and> (\<forall>d\<in>set ys. \<not> isSeparator d) \<longrightarrow>
        formatPathLabel (xs @ c # ys) = (if ys = [] then xs @ c # ys else ys))"
proof -
  have a: "slot (datasetSampleNames (handleDatasetFiles (Some (f # fs)) s)) (targetKey f s) =
     map (\<lambda>g. formatPathLabel (rawPath g))
       (take 3 (if filter isImageFile (f # fs) \<noteq> [] then filter isImageFile (f # fs)
                else f # fs))"
    by (simp only: handleDatasetFiles_Cons slot_setSlot refl if_True)
  have b: "length (slot (datasetSampleNames (handleDatasetFiles (Some (f # fs)) s)) (targetKey f s)) \<le> 3"
    unfolding a by simp
  have c: "k \<noteq> targetKey f s \<longrightarrow>
        slot (datasetSampleNames (handleDatasetFiles (Some (f # fs)) s)) k =
        slot (datasetSampleNames s) k"
    by (simp only: handleDatasetFiles_Cons slot_setSlot) simp
  have d: "isImageFile g =
       (prefix ''image/'' (toLowerCase (type g)) \<or>
        suffix ''.jpg'' (toLowerCase (name g)) \<or> suffix ''.jpeg'' (toLowerCase (name g)) \<or>
        suffix ''.png'' (toLowerCase (name g)) \<or> suffix ''.tif'' (toLowerCase (name g)) \<or>
        suffix ''.tiff'' (toLowerCase (name g)))"
    by (simp add: isImageFile_def startsWith_def endsWith_def Let_def)
  have e: "rawPath g = (if webkitRelativePath g \<noteq> [] then webkitRelativePath g else name g)"
    by (simp add: rawPath_def)
  show ?thesis
    using a b c d e formatPathLabel_no_separator[of raw]
      formatPathLabel_after_last_separator[of c ys xs]
    by blast
qed

theorem sample_names_of_attached_folder_witness:
  "targetKey batchImg initialBench = Swedish
   \<and> slot (datasetSampleNames
              (handleDatasetFiles (Some [batchImg, folderNote, flaviaImg]) initialBench)) Swedish
       = [''img01.png'', ''img02.JPG'']
   \<and> Flavia \<noteq> targetKey batchImg initialBench
   \<and> slot (datasetSampleNames
              (handleDatasetFiles (Some [batchImg, folderNote, flaviaImg]) initialBench)) Flavia
       = []
   \<and> isImageFile flaviaImg
   \<and> filter isSeparator ''img01.png'' = []
   \<and> formatPathLabel ''img01.png'' = ''img01.png''
   \<and> isSeparator CHR ''/''
   \<and> filter isSeparator ''img02.JPG'' = []
   \<and> formatPathLabel ''leaves/flavia/img02.JPG'' = ''img02.JPG''"
proof -
  note T = sample_names_of_attached_folder
             [of batchImg "[folderNote, flaviaImg]" initialBench Flavia flaviaImg
                 "''img01.png''" "CHR ''/''" "''img02.JPG''" "''leaves/flavia''"]
  note U = sample_names_of_attached_folder
             [of batchImg "[]" initialBench Flavia flaviaImg
                 "''img01.png''" "CHR ''/''" "''img01.png''" "''leaves/batch1''"]
  have k: "targetKey batchImg initialBench = Swedish"
    by code_simp
  have im: "filter isImageFile [batchImg, folderNote, flaviaImg] = [batchImg, flaviaImg]"
    by code_simp
  have r1: "rawPath batchImg = ''leaves/batch1/img01.png''"
    and r2: "rawPath flaviaImg = ''leaves/flavia/img02.JPG''"
    by (simp_all add: rawPath_def batchImg_def flaviaImg_def)
  have s1: "filter isSeparator ''img01.png'' = []" and s2: "filter isSeparator ''img02.JPG'' = []"
    and s3: "isSeparator CHR ''/''"
    by (simp_all add: isSeparator_def)
  have q1: "\<forall>c\<in>set ''img01.png''. \<not> isSeparator c"
    and q2: "\<forall>d\<in>set ''img02.JPG''. \<not> isSeparator d"
    by (simp_all add: isSeparator_def)
  have f1: "formatPathLabel ''img01.png'' = ''img01.png''"
    using T q1 by blast
  have "formatPathLabel (''leaves/flavia'' @ CHR ''/'' # ''img02.JPG'') =
          (if ''img02.JPG'' = [] then ''leaves/flavia'' @ CHR ''/'' # ''img02.JPG'' else ''img02.JPG'')"
    using T q2 s3 by blast
  then have f2: "formatPathLabel ''leaves/flavia/img02.JPG'' = ''img02.JPG''"
    by simp
  have "formatPathLabel (''leaves/batch1'' @ CHR ''/'' # ''img01.png'') =
          (if ''img01.png'' = [] then ''leaves/batch1'' @ CHR ''/'' # ''img01.png'' else ''img01.png'')"
    using U q1 s3 by blast
  then have f3: "formatPathLabel ''leaves/batch1/img01.png'' = ''img01.png''"
    by simp
  have "slot (datasetSampleNames
              (handleDatasetFiles (Some [batchImg, folderNote, flaviaImg]) initialBench))
          (targetKey batchImg initialBench) =
        map (\<lambda>g. formatPathLabel (rawPath g))
          (take 3 (if filter isImageFile [batchImg, folderNote, flaviaImg] \<noteq> []
                   then filter isImageFile [batchImg, folderNote, flaviaImg]
                   else [batchImg, folderNote, flaviaImg]))"
    using T by blast
  then have n: "slot (datasetSampleNames
              (handleDatasetFiles (Some [batchImg, folderNote, flaviaImg]) initialBench)) Swedish
       = [''img01.png'', ''img02.JPG'']"
    unfolding k im by (simp add: r1 r2 f2 f3)
  have ne: "Flavia \<noteq> targetKey batchImg initialBench"
    by (simp add: k)
  have "slot (datasetSampleNames
              (handleDatasetFiles (Some [batchImg, folderNote, flaviaImg]) initialBench)) Flavia
       = slot (datasetSampleNames initialBench) Flavia"
    using T ne by blast
  then have o: "slot (datasetSampleNames
              (handleDatasetFiles (Some [batchImg, folderNote, flaviaImg]) initialBench)) Flavia
       = []"
    by (simp add: initialBench_def)
  have g: "isImageFile flaviaImg"
    by code_simp
  show ?thesis using k n ne o g s1 s2 s3 f1 f2 by blast
qed

text \<open>
  Claim C10 as stated fails: for a file whose name is \<open>scan\<close> followed by a
  backslash, the last part of the split path is empty, and the name stored is the whole
  path.
\<close>

theorem trailing_separator_keeps_whole_path:
  "rawPath trailingBackslashFile = ''scan'' @ [CHR 0x5C]
   \<and> last (splitPath (rawPath trailingBackslashFile)) = []
   \<and> slot (datasetSampleNames (handleDatasetFiles (Some [trailingBackslashFile]) initialBench))
         Swedish = [''scan'' @ [CHR 0x5C]]"
  by code_simp

end
